theory Spec2Isabelle
  imports Complex_Main "HOL-Library.Word"
begin

section \<open>The Sprite class of \<^verbatim>\<open>src/lib/src/sprite.ts\<close>\<close>

text \<open>
  A shallow embedding of the class \<^verbatim>\<open>Sprite\<close>: its constructor, the accessors \<^verbatim>\<open>dim\<close>,
  \<^verbatim>\<open>pallet\<close> and \<^verbatim>\<open>horizontalSymmetry\<close>, the four pixel methods, \<^verbatim>\<open>bytes\<close>, \<^verbatim>\<open>svgExact\<close> and
  \<^verbatim>\<open>svgWidth\<close>. Conventions:
  \<^item> a TypeScript \<^verbatim>\<open>number\<close> that is a dimension or a coordinate is an \<^typ>\<open>int\<close>;
    the requested width of \<^verbatim>\<open>svgWidth\<close> and the sizes handed to \<^verbatim>\<open>svgExact\<close> are values of
    the type \<open>number\<close> below, and the arithmetic of \<^verbatim>\<open>svgWidth\<close> rounds to binary64;
  \<^item> a JavaScript array is a list of optional elements, \<open>None\<close> being a hole, which
    reads as \<^verbatim>\<open>undefined\<close>;
  \<^item> every \<^verbatim>\<open>throw\<close> is a value \<open>Inl e\<close> of the result type \<open>error + 'a\<close>.
\<close>

subsection \<open>External collaborators\<close>

text \<open>
  Modelled from the spec: the class \<^verbatim>\<open>Color\<close> (\<^verbatim>\<open>./color\<close>) is not part of the sources.
  The spec describes it as an RGBA colour value with an independent copy, an
  extraction of its four channels, and a sentinel black value. The program observes the
  identity of a colour object in one place only, the comparison \<^verbatim>\<open>value !== Color.BLACK\<close>
  of \<^verbatim>\<open>trimPallet\<close>. So a colour object is either the object \<^verbatim>\<open>Color.BLACK\<close> itself or
  another instance, which is given by its four channels red, green, blue, alpha.
\<close>

datatype Color = BLACK | Color rat rat rat rat

type_synonym channels = "rat \<times> rat \<times> rat \<times> rat"

text \<open>
  Modelled from the spec: \<^verbatim>\<open>toArray\<close>, the four channels of a colour. The sentinel is
  opaque black, as is the default fill \<^verbatim>\<open>new Color(0, 0, 0, 1)\<close> of the constructor.
\<close>

fun toArray :: "Color \<Rightarrow> channels" where
  "toArray BLACK = (0, 0, 0, 1)"
| "toArray (Color r g b a) = (r, g, b, a)"

text \<open>
  Modelled from the spec: \<^verbatim>\<open>copy\<close>, an independent copy. It is a new object, hence never
  the sentinel object, with the channels of the original.
\<close>

fun copy :: "Color \<Rightarrow> Color" where
  "copy BLACK = Color 0 0 0 1"
| "copy (Color r g b a) = Color r g b a"

text \<open>
  A JavaScript number: a finite binary64 value, given by the rational that it denotes, one
  of the two infinities, or \<^verbatim>\<open>NaN\<close>. The sign of a zero is not kept: the class never
  divides by a computed value, and both zeros print as \<^verbatim>\<open>0\<close>.
\<close>

datatype number = Num rat | PosInf | NegInf | NaN

text \<open>
  Modelled from the spec: the remaining methods of \<^verbatim>\<open>Color\<close> that the class calls, and
  the conversion of a number to text done by a template literal. Their results are not
  fixed by the sources, so they are parameters; each method of \<^verbatim>\<open>Color\<close> depends on the
  channels of the object only.
\<close>

record Externals =
  toRgba :: "channels \<Rightarrow> string"
  alphaByte :: "channels \<Rightarrow> int"
  redByte :: "channels \<Rightarrow> int"
  greenByte :: "channels \<Rightarrow> int"
  blueByte :: "channels \<Rightarrow> int"
  numberToString :: "number \<Rightarrow> string"

datatype error =
    ValidationError string
  | DimensionMismatchError int int nat
  | IndexOutOfBoundsError int int int int
  | TypeError
  | RangeError

text \<open>
  The sources throw a plain \<^verbatim>\<open>Error\<close> with a message. The constructors of \<^typ>\<open>error\<close>
  are named after the taxonomy of the spec and carry the values that the message
  interpolates: the name of the field; the two dimensions and the length of the array;
  the coordinate and the two dimensions. \<open>TypeError\<close> is the call of a method on
  \<^verbatim>\<open>undefined\<close>, read from a hole of the array. \<open>RangeError\<close> is thrown by
  \<^verbatim>\<open>new Array(n)\<close> for a length that no array can have.
\<close>

text \<open>
  Modelled from the spec: \<^verbatim>\<open>Validator.positiveInteger\<close> (\<^verbatim>\<open>./validator\<close>) is not part of
  the sources; it fails, naming the field, unless the value is a positive integer.
\<close>


definition positiveInteger :: "int \<Rightarrow> string \<Rightarrow> error + unit" where
  "positiveInteger v field = (if 0 < v then Inr () else Inl (ValidationError field))"

subsection \<open>JavaScript arrays\<close>

definition js_get :: "'a option list \<Rightarrow> int \<Rightarrow> 'a option" where
  "js_get xs i = (if 0 \<le> i \<and> i < int (length xs) then xs ! nat i else None)"

text \<open>
  A write beyond the end extends the array and leaves holes; a write at a negative index
  sets a property that is no element.
\<close>

definition js_set :: "'a option list \<Rightarrow> int \<Rightarrow> 'a \<Rightarrow> 'a option list" where
  "js_set xs i v =
     (if i < 0 then xs
      else if i < int (length xs) then xs[nat i := Some v]
      else xs @ replicate (nat i - length xs) None @ [Some v])"

text \<open>
  \<^verbatim>\<open>new Array(n)\<close> for an integer \<open>n\<close>: an array of \<open>n\<close> holes, or a \<^verbatim>\<open>RangeError\<close>
  unless \<open>0 \<le> n \<le> 2\<^sup>3\<^sup>2 - 1\<close>. The holes are filled before they are read, so they are
  given here as a list of units.
\<close>

definition new_Array :: "int \<Rightarrow> error + unit list" where
  "new_Array n = (if n < 0 \<or> 2 ^ 32 - 1 < n then Inl RangeError else Inr (replicate (nat n) ()))"

subsection \<open>Arithmetic in binary64\<close>

text \<open>
  The number of binary digits of a positive integer, and with it the exponent
  \<open>\<lfloor>log\<^sub>2 q\<rfloor>\<close> of a positive rational.
\<close>

function bits :: "int \<Rightarrow> int" where
  "bits n = (if n \<le> 0 then 0 else 1 + bits (n div 2))"
  by pat_completeness auto
termination
  by (relation "measure nat") auto

declare bits.simps [simp del]

definition ilog2 :: "rat \<Rightarrow> int" where
  "ilog2 q = (if 1 \<le> q then bits \<lfloor>q\<rfloor> - 1 else - bits (\<lceil>1 / q\<rceil> - 1))"

definition pow2 :: "int \<Rightarrow> rat" where
  "pow2 e = (if 0 \<le> e then 2 ^ nat e else 1 / 2 ^ nat (- e))"

definition round_half_even :: "rat \<Rightarrow> int" where
  "round_half_even q =
     (let f = \<lfloor>q\<rfloor>; d = q - of_int f
      in if d < 1 / 2 then f else if 1 / 2 < d then f + 1 else if even f then f else f + 1)"

text \<open>
  The binary64 value of an exact result: rounding to the nearest value with a significand
  of 53 binary digits, a tie to the even significand; the exponent is at least \<open>- 1022\<close>,
  which gives the subnormal values, and a result of \<open>2\<^sup>1\<^sup>0\<^sup>2\<^sup>4\<close> or more is an infinity.
\<close>

definition binary64 :: "rat \<Rightarrow> number" where
  "binary64 q =
     (if q = 0 then Num 0
      else
        (let e = max (ilog2 \<bar>q\<bar>) (- 1022);
             u = pow2 (e - 52);
             r = of_int (round_half_even (\<bar>q\<bar> / u)) * u
         in if 2 ^ 1024 \<le> r then (if 0 < q then PosInf else NegInf)
            else Num (sgn q * r)))"

text \<open>The operators \<^verbatim>\<open>+\<close>, \<^verbatim>\<open>-\<close>, \<^verbatim>\<open>*\<close> and \<^verbatim>\<open>/\<close> on numbers.\<close>

fun js_add :: "number \<Rightarrow> number \<Rightarrow> number" where
  "js_add (Num a) (Num b) = binary64 (a + b)"
| "js_add NaN _ = NaN"
| "js_add _ NaN = NaN"
| "js_add PosInf NegInf = NaN"
| "js_add NegInf PosInf = NaN"
| "js_add PosInf _ = PosInf"
| "js_add _ PosInf = PosInf"
| "js_add NegInf _ = NegInf"
| "js_add _ NegInf = NegInf"

fun js_neg :: "number \<Rightarrow> number" where
  "js_neg (Num a) = Num (- a)"
| "js_neg PosInf = NegInf"
| "js_neg NegInf = PosInf"
| "js_neg NaN = NaN"

definition js_sub :: "number \<Rightarrow> number \<Rightarrow> number" where
  "js_sub a b = js_add a (js_neg b)"

text \<open>An infinity, positive or not, times or divided by the finite value \<open>a\<close>.\<close>

definition inf_times :: "bool \<Rightarrow> rat \<Rightarrow> number" where
  "inf_times positive a =
     (if a = 0 then NaN else if (0 < a) = positive then PosInf else NegInf)"

fun js_mul :: "number \<Rightarrow> number \<Rightarrow> number" where
  "js_mul (Num a) (Num b) = binary64 (a * b)"
| "js_mul NaN _ = NaN"
| "js_mul _ NaN = NaN"
| "js_mul (Num a) PosInf = inf_times True a"
| "js_mul (Num a) NegInf = inf_times False a"
| "js_mul PosInf (Num b) = inf_times True b"
| "js_mul NegInf (Num b) = inf_times False b"
| "js_mul PosInf PosInf = PosInf"
| "js_mul NegInf NegInf = PosInf"
| "js_mul PosInf NegInf = NegInf"
| "js_mul NegInf PosInf = NegInf"

fun js_div :: "number \<Rightarrow> number \<Rightarrow> number" where
  "js_div (Num a) (Num b) =
     (if b = 0 then (if a = 0 then NaN else if 0 < a then PosInf else NegInf)
      else binary64 (a / b))"
| "js_div NaN _ = NaN"
| "js_div _ NaN = NaN"
| "js_div (Num a) _ = Num 0"
| "js_div PosInf (Num b) = (if 0 \<le> b then PosInf else NegInf)"
| "js_div NegInf (Num b) = (if 0 \<le> b then NegInf else PosInf)"
| "js_div _ _ = NaN"

text \<open>
  The operator \<^verbatim>\<open>%\<close>: the remainder of the division truncated towards zero, which has
  the sign of the dividend and is exact; \<^verbatim>\<open>NaN\<close> for the divisor 0 and for an infinite
  dividend.
\<close>

definition trunc :: "rat \<Rightarrow> int" where
  "trunc q = (if 0 \<le> q then \<lfloor>q\<rfloor> else \<lceil>q\<rceil>)"

fun js_rem :: "number \<Rightarrow> number \<Rightarrow> number" where
  "js_rem (Num a) (Num b) = (if b = 0 then NaN else Num (a - b * of_int (trunc (a / b))))"
| "js_rem (Num a) PosInf = Num a"
| "js_rem (Num a) NegInf = Num a"
| "js_rem _ _ = NaN"

text \<open>A store into a \<^verbatim>\<open>Uint8Array\<close> keeps the value modulo 256.\<close>

definition toUint8 :: "int \<Rightarrow> 8 word" where
  "toUint8 v = word_of_int v"

subsection \<open>Construction and accessors\<close>

definition trimPallet :: "Color list \<Rightarrow> Color list" where
  "trimPallet pallet = filter (\<lambda>value. value \<noteq> BLACK) pallet"

record SpriteParams =
  dim :: "int \<times> int"
  array :: "Color list option"
  pallet :: "Color list option"
  horizontalSymmetry :: "bool option"
  colorFill :: "Color option"

record Sprite =
  priv_dim :: "int \<times> int"
  priv_array :: "Color option list"
  priv_pallet :: "Color list"
  priv_horizontalSymmetry :: bool

text \<open>
  The constructor. The product of the two dimensions is the exact one: where binary64 would
  round it, it is above \<open>2\<^sup>5\<^sup>3\<close>, beyond the length of every array, so that
  \<^verbatim>\<open>new Array\<close> throws and the comparison with the length of a supplied grid fails,
  as they do for the exact product.
\<close>

definition Sprite_new :: "SpriteParams \<Rightarrow> error + Sprite" where
  "Sprite_new p =
     (case positiveInteger (fst (dim p)) ''dim.x'' of
        Inl e \<Rightarrow> Inl e
      | Inr _ \<Rightarrow>
     (case positiveInteger (snd (dim p)) ''dim.y'' of
        Inl e \<Rightarrow> Inl e
      | Inr _ \<Rightarrow>
     (let color = (case colorFill p of None \<Rightarrow> Color 0 0 0 1 | Some c \<Rightarrow> c)
      in case (case array p of
                 Some a \<Rightarrow> Inr (map Some a)
               | None \<Rightarrow>
                   (case new_Array (fst (dim p) * snd (dim p)) of
                      Inl e \<Rightarrow> Inl e
                    | Inr holes \<Rightarrow> Inr (map (\<lambda>_. Some (copy color)) holes))) of
           Inl e \<Rightarrow> Inl e
         | Inr arr \<Rightarrow>
             if fst (dim p) * snd (dim p) \<noteq> int (length arr)
             then Inl (DimensionMismatchError (fst (dim p)) (snd (dim p)) (length arr))
             else Inr \<lparr> priv_dim = dim p,
                        priv_array = arr,
                        priv_pallet = trimPallet (case pallet p of None \<Rightarrow> [] | Some q \<Rightarrow> q),
                        priv_horizontalSymmetry =
                          (case horizontalSymmetry p of None \<Rightarrow> False | Some b \<Rightarrow> b) \<rparr>)))"

definition get_dim :: "Sprite \<Rightarrow> int \<times> int" where
  "get_dim s = priv_dim s"

definition get_pallet :: "Sprite \<Rightarrow> Color list" where
  "get_pallet s = map copy (priv_pallet s)"


subsection \<open>Pixel access\<close>

definition withinBounds :: "Sprite \<Rightarrow> int \<Rightarrow> int \<Rightarrow> bool" where
  "withinBounds s x y \<longleftrightarrow> x \<ge> 0 \<and> x < fst (priv_dim s) \<and> y \<ge> 0 \<and> y < snd (priv_dim s)"

definition checkIndex :: "Sprite \<Rightarrow> int \<Rightarrow> int \<Rightarrow> error + unit" where
  "checkIndex s x y =
     (if \<not> withinBounds s x y
      then Inl (IndexOutOfBoundsError x y (fst (get_dim s)) (snd (get_dim s)))
      else Inr ())"

definition setPixelAt :: "Sprite \<Rightarrow> int \<Rightarrow> int \<Rightarrow> Color \<Rightarrow> error + Sprite" where
  "setPixelAt s x y color =
     (case checkIndex s x y of
        Inl e \<Rightarrow> Inl e
      | Inr _ \<Rightarrow>
          Inr (s\<lparr>priv_array := js_set (priv_array s) (y * fst (priv_dim s) + x) (copy color)\<rparr>))"

definition pixelAt :: "Sprite \<Rightarrow> int \<Rightarrow> int \<Rightarrow> error + Color" where
  "pixelAt s x y =
     (case checkIndex s x y of
        Inl e \<Rightarrow> Inl e
      | Inr _ \<Rightarrow>
          (case js_get (priv_array s) (y * fst (priv_dim s) + x) of
             None \<Rightarrow> Inl TypeError
           | Some c \<Rightarrow> Inr (copy c)))"

text \<open>The result \<open>Inr None\<close> is the returned \<^verbatim>\<open>undefined\<close>.\<close>

definition pixelAtChecked :: "Sprite \<Rightarrow> int \<Rightarrow> int \<Rightarrow> error + Color option" where
  "pixelAtChecked s x y =
     (if \<not> withinBounds s x y then Inr None
      else (case js_get (priv_array s) (y * fst (priv_dim s) + x) of
              None \<Rightarrow> Inl TypeError
            | Some c \<Rightarrow> Inr (Some (copy c))))"

text \<open>The method returns its flag and leaves the object in the state of the second component.\<close>

definition setPixelAtChecked :: "Sprite \<Rightarrow> int \<Rightarrow> int \<Rightarrow> Color \<Rightarrow> bool \<times> Sprite" where
  "setPixelAtChecked s x y color =
     (if \<not> withinBounds s x y then (False, s)
      else (True,
            s\<lparr>priv_array := js_set (priv_array s) (y * fst (priv_dim s) + x) (copy color)\<rparr>))"

subsection \<open>Byte export\<close>

function bytes_loop ::
  "Externals \<Rightarrow> Color option list \<Rightarrow> nat \<Rightarrow> nat \<Rightarrow> 8 word list \<Rightarrow> error + 8 word list" where
  "bytes_loop api arr i j result =
     (if i < length arr then
        (case arr ! i of
           None \<Rightarrow> Inl TypeError
         | Some color \<Rightarrow>
             bytes_loop api arr (i + 1) (j + 4)
               (result[j + 0 := toUint8 (alphaByte api (toArray color)),
                       j + 1 := toUint8 (redByte api (toArray color)),
                       j + 2 := toUint8 (greenByte api (toArray color)),
                       j + 3 := toUint8 (greenByte api (toArray color))]))
      else Inr result)"
  by pat_completeness auto
termination
  by (relation "measure (\<lambda>(api, arr, i, j, result). length arr - i)") auto

declare bytes_loop.simps [simp del]

definition bytes :: "Externals \<Rightarrow> Sprite \<Rightarrow> error + 8 word list" where
  "bytes api s =
     bytes_loop api (priv_array s) 0 0 (replicate (length (priv_array s) * 4) 0)"

subsection \<open>SVG rendering\<close>

definition svg_open :: "Externals \<Rightarrow> Sprite \<Rightarrow> number \<Rightarrow> number \<Rightarrow> string \<Rightarrow> string \<Rightarrow> string" where
  \<open>svg_open api s width height unit parameters =
     ''<svg '' @ parameters @ '' width="'' @ numberToString api width @ unit
     @ ''" height="'' @ numberToString api height @ unit
     @ ''" viewBox="0, 0, '' @ numberToString api (Num (of_int (fst (get_dim s))))
     @ '', '' @ numberToString api (Num (of_int (snd (get_dim s)))) @ ''">''\<close>

definition rect :: "Externals \<Rightarrow> int \<Rightarrow> int \<Rightarrow> string \<Rightarrow> string" where
  \<open>rect api x y rgba =
     ''<rect width="1" height="1" x="'' @ numberToString api (Num (of_int x))
     @ ''" y="'' @ numberToString api (Num (of_int y))
     @ ''" style="fill:'' @ rgba @ '';" />''\<close>

function svgExact_inner :: "Externals \<Rightarrow> Sprite \<Rightarrow> int \<Rightarrow> int \<Rightarrow> string \<Rightarrow> error + string" where
  "svgExact_inner api s x y result =
     (if y < snd (get_dim s) then
        (case pixelAt s x y of
           Inl e \<Rightarrow> Inl e
         | Inr c \<Rightarrow>
             (let rgba = toRgba api (toArray c)
              in svgExact_inner api s x (y + 1) (result @ rect api x y rgba)))
      else Inr result)"
  by pat_completeness auto
termination
  by (relation "measure (\<lambda>(api, s, x, y, result). nat (snd (get_dim s) - y))") auto

declare svgExact_inner.simps [simp del]

function svgExact_outer :: "Externals \<Rightarrow> Sprite \<Rightarrow> int \<Rightarrow> string \<Rightarrow> error + string" where
  "svgExact_outer api s x result =
     (if x < fst (priv_dim s) then
        (case svgExact_inner api s x 0 result of
           Inl e \<Rightarrow> Inl e
         | Inr result' \<Rightarrow> svgExact_outer api s (x + 1) result')
      else Inr result)"
  by pat_completeness auto
termination
  by (relation "measure (\<lambda>(api, s, x, result). nat (fst (priv_dim s) - x))") auto

declare svgExact_outer.simps [simp del]

definition svgExact ::
  "Externals \<Rightarrow> Sprite \<Rightarrow> number \<Rightarrow> number \<Rightarrow> string \<Rightarrow> string \<Rightarrow> error + string" where
  "svgExact api s width height unit parameters =
     (case svgExact_outer api s 0 (svg_open api s width height unit parameters) of
        Inl e \<Rightarrow> Inl e
      | Inr result \<Rightarrow> Inr (result @ ''</svg>''))"

text \<open>
  The two bindings of \<^verbatim>\<open>svgWidth\<close>: the width \<^verbatim>\<open>w\<close> and the height \<^verbatim>\<open>h\<close> that it hands
  to \<^verbatim>\<open>svgExact\<close>, each operator with its rounding.
\<close>

definition svgWidth_size :: "Sprite \<Rightarrow> number \<Rightarrow> number \<times> number" where
  "svgWidth_size s width =
     (let w = js_sub (js_add width (Num (of_int (fst (priv_dim s)))))
                     (js_rem width (Num (of_int (fst (priv_dim s)))));
          h = js_mul (js_div (Num (of_int (snd (priv_dim s)))) (Num (of_int (fst (priv_dim s))))) w
      in (w, h))"

definition svgWidth :: "Externals \<Rightarrow> Sprite \<Rightarrow> number \<Rightarrow> string \<Rightarrow> string \<Rightarrow> error + string" where
  "svgWidth api s width unit parameters =
     (case svgWidth_size s width of (w, h) \<Rightarrow> svgExact api s w h unit parameters)"

subsection \<open>The class invariant\<close>

text \<open>
  What the constructor establishes and the setters keep: both dimensions are positive,
  the grid has one cell for each coordinate, and no cell is a hole.
\<close>

definition Sprite_inv :: "Sprite \<Rightarrow> bool" where
  "Sprite_inv s \<longleftrightarrow>
     0 < fst (priv_dim s) \<and> 0 < snd (priv_dim s) \<and>
     int (length (priv_array s)) = fst (priv_dim s) * snd (priv_dim s) \<and>
     None \<notin> set (priv_array s)"

subsection \<open>Notions of the spec\<close>

text \<open>
  The spec's opaque pure black, as a property of the channels of a colour.
\<close>

definition opaque_black :: "Color \<Rightarrow> bool" where
  "opaque_black c \<longleftrightarrow> toArray c = (0, 0, 0, 1)"

text \<open>
  The four bytes of a cell as \<^verbatim>\<open>bytes\<close> is described: alpha, red, green, green.
\<close>

definition cell_bytes :: "Externals \<Rightarrow> Color \<Rightarrow> 8 word list" where
  "cell_bytes api c =
     [toUint8 (alphaByte api (toArray c)), toUint8 (redByte api (toArray c)),
      toUint8 (greenByte api (toArray c)), toUint8 (greenByte api (toArray c))]"

text \<open>
  The \<^verbatim>\<open><rect>\<close> elements of a grid \<open>cs\<close> of dimension \<open>(w, h)\<close> as the spec orders them:
  all \<open>y\<close> for \<open>x = 0\<close>, then all \<open>y\<close> for \<open>x = 1\<close>, and so on; the fill of the element
  at \<open>(x, y)\<close> is the colour of the cell \<open>y * w + x\<close>.
\<close>

definition svg_rects :: "Externals \<Rightarrow> int \<Rightarrow> int \<Rightarrow> Color list \<Rightarrow> string list" where
  "svg_rects api w h cs =
     map (\<lambda>(x, y). rect api x y (toRgba api (toArray (cs ! nat (y * w + x)))))
       (List.product [0..w - 1] [0..h - 1])"

text \<open>
  \<open>m\<close> is the least multiple of \<open>d\<close> that is at least \<open>n\<close>, for \<open>0 < d\<close>, without a
  quantifier: a multiple of \<open>d\<close> in the interval from \<open>n\<close> to \<open>n + d\<close>, the latter excluded.
\<close>

definition least_multiple_ge :: "int \<Rightarrow> int \<Rightarrow> int \<Rightarrow> bool" where
  "least_multiple_ge d n m \<longleftrightarrow> d dvd m \<and> n \<le> m \<and> m < n + d"

subsection \<open>Example values\<close>

text \<open>
  The colours and the sprites of the scenarios of the spec. The colours are instances other
  than the sentinel.
\<close>

definition RED :: Color where "RED = Color 255 0 0 1"
definition GREEN :: Color where "GREEN = Color 0 255 0 1"
definition BLUE :: Color where "BLUE = Color 0 0 255 1"
definition WHITE :: Color where "WHITE = Color 255 255 255 1"

definition params_2x2 :: SpriteParams where
  "params_2x2 = \<lparr> dim = (2, 2), array = Some [RED, GREEN, BLUE, WHITE], pallet = None,
                   horizontalSymmetry = None, colorFill = None \<rparr>"

definition sprite_2x2 :: Sprite where
  "sprite_2x2 = \<lparr> priv_dim = (2, 2),
                   priv_array = [Some RED, Some GREEN, Some BLUE, Some WHITE],
                   priv_pallet = [], priv_horizontalSymmetry = False \<rparr>"

definition sprite_3x1 :: Sprite where
  "sprite_3x1 = \<lparr> priv_dim = (3, 1),
                   priv_array = [Some (Color 0 0 0 1), Some (Color 0 0 0 1), Some (Color 0 0 0 1)],
                   priv_pallet = [], priv_horizontalSymmetry = False \<rparr>"

definition sprite_3x7 :: Sprite where
  "sprite_3x7 = \<lparr> priv_dim = (3, 7), priv_array = replicate 21 (Some (Color 0 0 0 1)),
                   priv_pallet = [], priv_horizontalSymmetry = False \<rparr>"

definition params_black_pallet :: SpriteParams where
  "params_black_pallet = \<lparr> dim = (1, 1), array = None, pallet = Some [Color 0 0 0 1, RED],
                           horizontalSymmetry = None, colorFill = None \<rparr>"

definition sprite_black_pallet :: Sprite where
  "sprite_black_pallet = \<lparr> priv_dim = (1, 1), priv_array = [Some (Color 0 0 0 1)],
                           priv_pallet = [Color 0 0 0 1, RED], priv_horizontalSymmetry = False \<rparr>"

text \<open>
  An instance of the external methods for the examples: natural numbers print in decimal, a CSS
  colour is \<^verbatim>\<open>rgba(r,g,b,a)\<close>, and the byte of the alpha channel is 255 times the channel.
\<close>

fun decimal :: "nat \<Rightarrow> string" where
  "decimal n = (if n < 10 then [''0123456789'' ! n] else decimal (n div 10) @ [''0123456789'' ! (n mod 10)])"

definition sample_api :: Externals where
  "sample_api = \<lparr> toRgba = (\<lambda>(r, g, b, a). ''rgba('' @ decimal (nat \<lfloor>r\<rfloor>) @ '','' @ decimal (nat \<lfloor>g\<rfloor>)
                               @ '','' @ decimal (nat \<lfloor>b\<rfloor>) @ '','' @ decimal (nat \<lfloor>a\<rfloor>) @ '')''),
                  alphaByte = (\<lambda>(r, g, b, a). \<lfloor>a * 255\<rfloor>),
                  redByte = (\<lambda>(r, g, b, a). \<lfloor>r\<rfloor>),
                  greenByte = (\<lambda>(r, g, b, a). \<lfloor>g\<rfloor>),
                  blueByte = (\<lambda>(r, g, b, a). \<lfloor>b\<rfloor>),
                  numberToString = (\<lambda>n. case n of Num q \<Rightarrow> decimal (nat \<lfloor>q\<rfloor>) | PosInf \<Rightarrow> ''Infinity''
                                      | NegInf \<Rightarrow> ''-Infinity'' | NaN \<Rightarrow> ''NaN'') \<rparr>"

section \<open>Properties\<close>

subsection \<open>Construction and the invariant\<close>


lemma Sprite_inv_2x2: "Sprite_inv sprite_2x2"
  by (simp add: Sprite_inv_def sprite_2x2_def)

lemma Sprite_new_unfold:
  "Sprite_new p =
     (if \<not> 0 < fst (dim p) then Inl (ValidationError ''dim.x'')
      else if \<not> 0 < snd (dim p) then Inl (ValidationError ''dim.y'')
      else
       (let color = (case colorFill p of None \<Rightarrow> Color 0 0 0 1 | Some c \<Rightarrow> c);
            pal = trimPallet (case pallet p of None \<Rightarrow> [] | Some q \<Rightarrow> q);
            sym = (case horizontalSymmetry p of None \<Rightarrow> False | Some b \<Rightarrow> b)
        in case array p of
             Some a \<Rightarrow>
               if fst (dim p) * snd (dim p) \<noteq> int (length a)
               then Inl (DimensionMismatchError (fst (dim p)) (snd (dim p)) (length a))
               else Inr \<lparr> priv_dim = dim p, priv_array = map Some a,
                          priv_pallet = pal, priv_horizontalSymmetry = sym \<rparr>
           | None \<Rightarrow>
               if 2 ^ 32 - 1 < fst (dim p) * snd (dim p) then Inl RangeError
               else Inr \<lparr> priv_dim = dim p,
                          priv_array = replicate (nat (fst (dim p) * snd (dim p)))
                                         (Some (copy color)),
                          priv_pallet = pal, priv_horizontalSymmetry = sym \<rparr>))"
proof (cases "0 < fst (dim p) \<and> 0 < snd (dim p)")
  case True
  then have "0 < fst (dim p) * snd (dim p)" by simp
  then have "\<not> fst (dim p) * snd (dim p) < 0" by simp
  with True show ?thesis
    by (cases "array p")
      (simp_all add: Sprite_new_def positiveInteger_def new_Array_def map_replicate_const Let_def)
next
  case False
  then show ?thesis
    by (auto simp: Sprite_new_def positiveInteger_def)
qed

lemma Sprite_new_3x1:
  "Sprite_new \<lparr> dim = (3, 1), array = None, pallet = None, horizontalSymmetry = None,
                colorFill = None \<rparr> = Inr sprite_3x1"
  by (simp add: Sprite_new_unfold sprite_3x1_def trimPallet_def numeral_3_eq_3 Let_def)

lemma Sprite_inv_3x1: "Sprite_inv sprite_3x1"
  by (simp add: Sprite_inv_def sprite_3x1_def)

lemma Sprite_inv_3x7: "Sprite_inv sprite_3x7"
  by (simp add: Sprite_inv_def sprite_3x7_def)

lemma Sprite_new_inv:
  assumes "Sprite_new p = Inr s"
  shows "Sprite_inv s"
  using assms unfolding Sprite_new_unfold Let_def
  by (cases "array p") (auto simp: Sprite_inv_def split: if_splits)

lemma Sprite_new_pallet:
  assumes "Sprite_new p = Inr s"
  shows "priv_pallet s = trimPallet (case pallet p of None \<Rightarrow> [] | Some q \<Rightarrow> q)"
  using assms unfolding Sprite_new_unfold Let_def
  by (cases "array p") (auto split: if_splits)

subsection \<open>Colours, indices and cells\<close>

lemma toArray_copy: "toArray (copy c) = toArray c"
  by (cases c) simp_all


lemma copy_not_BLACK: "copy c \<noteq> BLACK"
  by (cases c) simp_all

lemma index_in_range:
  fixes x y w h :: int
  assumes "0 \<le> x" "x < w" "0 \<le> y" "y < h"
  shows "0 \<le> y * w + x \<and> y * w + x < w * h"
proof -
  from assms have "(y + 1) * w \<le> h * w"
    by (intro mult_right_mono) auto
  with assms show ?thesis
    by (simp add: algebra_simps)
qed


lemma cell_Some:
  assumes "Sprite_inv s" "priv_dim s = (w, h)" "0 \<le> x" "x < w" "0 \<le> y" "y < h"
  shows "nat (y * w + x) < length (priv_array s) \<and>
         (\<exists>c. priv_array s ! nat (y * w + x) = Some c)"
proof -
  from index_in_range [OF assms(3-6)] assms(1,2)
  have lt: "nat (y * w + x) < length (priv_array s)"
    by (simp add: Sprite_inv_def nat_less_iff)
  moreover from assms(1) lt have "priv_array s ! nat (y * w + x) \<noteq> None"
    unfolding Sprite_inv_def by (metis nth_mem)
  ultimately show ?thesis by auto
qed

lemma pixelAt_in_bounds:
  assumes "priv_dim s = (w, h)" "0 \<le> x" "x < w" "0 \<le> y" "y < h"
    "nat (y * w + x) < length (priv_array s)" "priv_array s ! nat (y * w + x) = Some c"
  shows "pixelAt s x y = Inr (copy c)"
proof -
  from assms have "checkIndex s x y = Inr ()"
    by (simp add: checkIndex_def withinBounds_def)
  moreover from assms index_in_range [of x w y h]
  have "js_get (priv_array s) (y * fst (priv_dim s) + x) = Some c"
    by (simp add: js_get_def)
  ultimately show ?thesis by (simp add: pixelAt_def)
qed

lemma js_set_in_range:
  assumes "0 \<le> i" "nat i < length xs"
  shows "js_set xs i v = xs[nat i := Some v]"
proof -
  from assms have "i < int (length xs)" by linarith
  with assms(1) show ?thesis by (simp add: js_set_def)
qed

lemma setPixelAt_inv:
  assumes "Sprite_inv s" "setPixelAt s x y c = Inr s'"
  shows "Sprite_inv s'"
proof -
  from assms(2) have wb: "withinBounds s x y"
    by (auto simp: setPixelAt_def checkIndex_def split: if_splits)
  obtain w h where d: "priv_dim s = (w, h)" by (cases "priv_dim s")
  from wb d have b: "0 \<le> x" "x < w" "0 \<le> y" "y < h"
    by (simp_all add: withinBounds_def)
  note rng = index_in_range [OF b]
  from cell_Some [OF assms(1) d b] have lt: "nat (y * w + x) < length (priv_array s)"
    by simp
  from assms(2) wb d rng lt
  have s': "s' = s\<lparr>priv_array := (priv_array s)[nat (y * w + x) := Some (copy c)]\<rparr>"
    by (auto simp: setPixelAt_def checkIndex_def js_set_in_range)
  have "set ((priv_array s)[nat (y * w + x) := Some (copy c)])
          \<subseteq> insert (Some (copy c)) (set (priv_array s))"
    by (rule set_update_subset_insert)
  with assms(1) have "None \<notin> set ((priv_array s)[nat (y * w + x) := Some (copy c)])"
    by (auto simp: Sprite_inv_def)
  with assms(1) show ?thesis
    by (simp add: Sprite_inv_def s')
qed

subsection \<open>Access out of bounds\<close>

text \<open>
  Claim C4. On a Sprite of dimension \<open>(w, h)\<close>, at a coordinate with \<open>x\<close> outside
  \<open>[0, w)\<close> or \<open>y\<close> outside \<open>[0, h)\<close>, the methods \<^verbatim>\<open>pixelAt\<close> and \<^verbatim>\<open>setPixelAt\<close> fail with
  the index-out-of-bounds error, which reports the coordinate and the dimension;
  \<^verbatim>\<open>pixelAtChecked\<close> returns the absent result and \<^verbatim>\<open>setPixelAtChecked\<close> returns false,
  and neither of the two fails.
\<close>

theorem out_of_bounds_access:
  assumes "priv_dim s = (w, h)"
    and "x < 0 \<or> w \<le> x \<or> y < 0 \<or> h \<le> y"
  shows "pixelAt s x y = Inl (IndexOutOfBoundsError x y w h) \<and>
         setPixelAt s x y c = Inl (IndexOutOfBoundsError x y w h) \<and>
         pixelAtChecked s x y = Inr None \<and>
         fst (setPixelAtChecked s x y c) = False"
proof -
  from assms have nb: "\<not> withinBounds s x y"
    by (auto simp: withinBounds_def)
  then have ci: "checkIndex s x y = Inl (IndexOutOfBoundsError x y w h)"
    using assms(1) by (simp add: checkIndex_def get_dim_def)
  from nb ci show ?thesis
    by (simp add: pixelAt_def setPixelAt_def pixelAtChecked_def setPixelAtChecked_def)
qed

theorem out_of_bounds_access_witness:
  "pixelAt sprite_2x2 2 0 = Inl (IndexOutOfBoundsError 2 0 2 2) \<and>
   setPixelAt sprite_2x2 2 0 RED = Inl (IndexOutOfBoundsError 2 0 2 2) \<and>
   pixelAtChecked sprite_2x2 2 0 = Inr None \<and>
   fst (setPixelAtChecked sprite_2x2 2 0 RED) = False \<and>
   pixelAt sprite_2x2 1 (- 1) = Inl (IndexOutOfBoundsError 1 (- 1) 2 2)"
proof -
  have d: "priv_dim sprite_2x2 = (2, 2)"
    by (simp add: sprite_2x2_def)
  show ?thesis
    using out_of_bounds_access [OF d, of 2 0 RED] out_of_bounds_access [OF d, of 1 "- 1" RED]
    by simp
qed

subsection \<open>The checked setter\<close>

text \<open>
  Claim C10. \<^verbatim>\<open>setPixelAtChecked(x, y, c)\<close> returns true exactly when \<open>x\<close> is in
  \<open>[0, width)\<close> and \<open>y\<close> is in \<open>[0, height)\<close>; when it returns false, the Sprite is as it
  was before the call: grid, dimension, palette and symmetry flag.
\<close>

theorem setPixelAtChecked_flag:
  "(fst (setPixelAtChecked s x y c) \<longleftrightarrow>
      0 \<le> x \<and> x < fst (priv_dim s) \<and> 0 \<le> y \<and> y < snd (priv_dim s)) \<and>
   (\<not> fst (setPixelAtChecked s x y c) \<longrightarrow> snd (setPixelAtChecked s x y c) = s)"
  by (simp add: setPixelAtChecked_def withinBounds_def)

theorem setPixelAtChecked_flag_witness:
  "\<not> fst (setPixelAtChecked sprite_2x2 0 2 RED) \<and>
   snd (setPixelAtChecked sprite_2x2 0 2 RED) = sprite_2x2 \<and>
   fst (setPixelAtChecked sprite_2x2 1 1 RED)"
  using setPixelAtChecked_flag [of sprite_2x2 0 2 RED]
    setPixelAtChecked_flag [of sprite_2x2 1 1 RED]
  by (simp add: sprite_2x2_def)

subsection \<open>Construction\<close>

text \<open>
  Claim C1, as the class has it. The filter of \<^verbatim>\<open>trimPallet\<close> compares each entry with the
  object \<^verbatim>\<open>Color.BLACK\<close> by identity. The stored palette is the input palette without
  the entries that are that very object, in the order of the input; it never holds the
  sentinel object, and the \<^verbatim>\<open>pallet\<close> accessor returns copies of the stored entries.
  Constructing with the palette \<open>[BLACK, RED]\<close> stores exactly \<open>[RED]\<close>.
\<close>

theorem stored_pallet_without_sentinel:
  assumes "Sprite_new p = Inr s"
  shows "priv_pallet s = filter (\<lambda>v. v \<noteq> BLACK) (case pallet p of None \<Rightarrow> [] | Some q \<Rightarrow> q) \<and>
         BLACK \<notin> set (priv_pallet s) \<and>
         get_pallet s = map copy (priv_pallet s) \<and>
         (pallet p = Some [BLACK, RED] \<longrightarrow> priv_pallet s = [RED] \<and> get_pallet s = [RED])"
proof -
  have f: "priv_pallet s = filter (\<lambda>v. v \<noteq> BLACK) (case pallet p of None \<Rightarrow> [] | Some q \<Rightarrow> q)"
    using Sprite_new_pallet [OF assms] by (simp add: trimPallet_def)
  then have "BLACK \<notin> set (priv_pallet s)"
    by simp
  moreover have "get_pallet s = map copy (priv_pallet s)"
    by (simp add: get_pallet_def)
  moreover have "priv_pallet s = [RED] \<and> get_pallet s = [RED]" if "pallet p = Some [BLACK, RED]"
    using f that by (simp add: get_pallet_def RED_def)
  ultimately show ?thesis
    using f by blast
qed

theorem stored_pallet_without_sentinel_witness:
  "priv_pallet sprite_2x2 = [] \<and>
   Sprite_new (params_2x2 \<lparr> pallet := Some [BLACK, RED] \<rparr>)
     = Inr (sprite_2x2 \<lparr> priv_pallet := [RED] \<rparr>) \<and>
   get_pallet (sprite_2x2 \<lparr> priv_pallet := [RED] \<rparr>) = [RED]"
proof -
  have n: "Sprite_new (params_2x2 \<lparr> pallet := Some [BLACK, RED] \<rparr>)
            = Inr (sprite_2x2 \<lparr> priv_pallet := [RED] \<rparr>)"
    by (simp add: Sprite_new_def params_2x2_def sprite_2x2_def positiveInteger_def
        trimPallet_def RED_def)
  have q: "pallet (params_2x2 \<lparr> pallet := Some [BLACK, RED] \<rparr>) = Some [BLACK, RED]"
    by simp
  from stored_pallet_without_sentinel [OF n] q
  have "get_pallet (sprite_2x2 \<lparr> priv_pallet := [RED] \<rparr>) = [RED]"
    by blast
  moreover have "priv_pallet sprite_2x2 = []"
    by (simp add: sprite_2x2_def)
  ultimately show ?thesis
    using n by simp
qed

text \<open>
  Claim C1, as it is stated, fails: an instance other than the sentinel, with the channels
  of opaque black, passes the filter. The palette \<open>[new Color(0, 0, 0, 1), RED]\<close> is
  stored whole, and the accessor returns an opaque black entry.
\<close>

theorem pallet_keeps_black_counterexample:
  "Sprite_new params_black_pallet = Inr sprite_black_pallet \<and>
   get_pallet sprite_black_pallet = [Color 0 0 0 1, RED] \<and>
   opaque_black (Color 0 0 0 1)"
  by (simp add: Sprite_new_unfold params_black_pallet_def sprite_black_pallet_def
      trimPallet_def get_pallet_def opaque_black_def RED_def Let_def)




text \<open>
  Claim C8. For positive dimensions \<open>(w, h)\<close> and a supplied grid whose length is not
  \<open>w * h\<close>, the construction fails with the dimension-mismatch error, which carries the
  dimensions and the actual length; no Sprite is returned.
\<close>

theorem Sprite_new_dimension_mismatch:
  assumes "dim p = (w, h)" "0 < w" "0 < h" "array p = Some a" "int (length a) \<noteq> w * h"
  shows "Sprite_new p = Inl (DimensionMismatchError w h (length a))"
  using assms by (simp add: Sprite_new_unfold Let_def)

theorem Sprite_new_dimension_mismatch_witness:
  "Sprite_new (params_2x2 \<lparr> array := Some [RED, GREEN, BLUE] \<rparr>) =
     Inl (DimensionMismatchError 2 2 3)"
  using Sprite_new_dimension_mismatch [of "params_2x2 \<lparr> array := Some [RED, GREEN, BLUE] \<rparr>" 2 2
      "[RED, GREEN, BLUE]"]
  by (simp add: params_2x2_def)

subsection \<open>Reading and writing a pixel\<close>





subsection \<open>Byte export\<close>

lemma take_update4:
  assumes "j + 3 < length xs"
  shows "take (j + 4) (xs[j + 0 := a, j + 1 := b, j + 2 := c, j + 3 := d]) = take j xs @ [a, b, c, d]"
proof -
  have e: "j + 4 = Suc (Suc (Suc (Suc j)))" "j + 3 = Suc (Suc (Suc j))" "j + 2 = Suc (Suc j)"
    by simp_all
  from assms show ?thesis
    by (simp add: e take_Suc_conv_app_nth)
qed

lemma bytes_loop_run:
  assumes "i \<le> length cs" "length result = 4 * length cs"
  shows "bytes_loop api (map Some cs) i (4 * i) result
           = Inr (take (4 * i) result @ concat (map (cell_bytes api) (drop i cs)))"
  using assms
proof (induction "length cs - i" arbitrary: i result)
  case 0
  then show ?case
    by (simp add: bytes_loop.simps [of api "map Some cs" i])
next
  case (Suc n)
  then have lt: "i < length cs" by simp
  let ?c = "cs ! i"
  let ?r = "result[4 * i + 0 := toUint8 (alphaByte api (toArray ?c)),
                   4 * i + 1 := toUint8 (redByte api (toArray ?c)),
                   4 * i + 2 := toUint8 (greenByte api (toArray ?c)),
                   4 * i + 3 := toUint8 (greenByte api (toArray ?c))]"
  from lt have step: "bytes_loop api (map Some cs) i (4 * i) result
      = bytes_loop api (map Some cs) (i + 1) (4 * i + 4) ?r"
    by (simp add: bytes_loop.simps [of api "map Some cs" i])
  from Suc.hyps(2) lt have n: "n = length cs - (i + 1)" by simp
  from lt have le: "i + 1 \<le> length cs" by simp
  have len: "length ?r = 4 * length cs" using Suc.prems(2) by simp
  have e4: "4 * (i + 1) = 4 * i + 4" by simp
  note ih = Suc.hyps(1) [OF n le len, unfolded e4]
  from lt Suc.prems(2) have "4 * i + 3 < length result" by simp
  from take_update4 [OF this]
  have tk: "take (4 * i + 4) ?r = take (4 * i) result @ cell_bytes api ?c"
    by (simp add: cell_bytes_def)
  from lt have dr: "drop i cs = ?c # drop (i + 1) cs"
    by (simp add: Cons_nth_drop_Suc)
  show ?case
    unfolding step ih tk dr by simp
qed

lemma no_holes_map_Some:
  assumes "None \<notin> set xs"
  shows "xs = map Some (map the xs)"
  using assms by (induction xs) auto

lemma bytes_map_Some:
  assumes "priv_array s = map Some cs"
  shows "bytes api s = Inr (concat (map (cell_bytes api) cs))"
  using bytes_loop_run [of 0 cs "replicate (length cs * 4) 0" api] assms
  by (simp add: bytes_def mult.commute)

text \<open>
  Claim C6. On every Sprite, \<^verbatim>\<open>bytes()\<close> returns four bytes for each grid cell, in storage
  order, and the four bytes of a cell are alpha, red, green, green: the fourth byte repeats
  the green channel, and the result does not depend on the blue channel.
\<close>

theorem bytes_layout:
  assumes "Sprite_inv s"
  shows "\<exists>cs. priv_array s = map Some cs \<and>
           bytes api s = Inr (concat (map (cell_bytes api) cs)) \<and>
           length (concat (map (cell_bytes api) cs)) = 4 * length (priv_array s) \<and>
           bytes (api\<lparr>blueByte := f\<rparr>) s = bytes api s"
proof -
  from assms have "None \<notin> set (priv_array s)"
    by (simp add: Sprite_inv_def)
  from no_holes_map_Some [OF this] obtain cs where cs: "priv_array s = map Some cs" ..
  have "cell_bytes (api\<lparr>blueByte := f\<rparr>) = cell_bytes api"
    by (rule ext) (simp add: cell_bytes_def)
  with bytes_map_Some [OF cs] have "bytes (api\<lparr>blueByte := f\<rparr>) s = bytes api s"
    by simp
  moreover have "length (concat (map (cell_bytes api) cs)) = 4 * length (priv_array s)"
    unfolding cs by (induction cs) (simp_all add: cell_bytes_def)
  ultimately show ?thesis
    using cs bytes_map_Some [OF cs] by blast
qed

theorem bytes_layout_witness:
  "Sprite_inv sprite_2x2 \<and>
   bytes sample_api sprite_2x2
     = Inr [255, 255, 0, 0,  255, 0, 255, 255,  255, 0, 0, 0,  255, 255, 255, 255]"
proof -
  from bytes_layout [OF Sprite_inv_2x2, of sample_api]
  obtain cs where cs: "priv_array sprite_2x2 = map Some cs"
    and b: "bytes sample_api sprite_2x2 = Inr (concat (map (cell_bytes sample_api) cs))"
    by blast
  have "priv_array sprite_2x2 = map Some [RED, GREEN, BLUE, WHITE]"
    by (simp add: sprite_2x2_def)
  with cs have "map Some cs = map Some [RED, GREEN, BLUE, WHITE]"
    by simp
  then have "cs = [RED, GREEN, BLUE, WHITE]"
    by (simp only: inj_map_eq_map [OF inj_Some])
  with b show ?thesis
    by (simp add: Sprite_inv_2x2 cell_bytes_def sample_api_def toUint8_def
        RED_def GREEN_def BLUE_def WHITE_def)
qed

subsection \<open>SVG rendering\<close>

lemma svgExact_inner_run:
  assumes "Sprite_inv s" "priv_dim s = (w, h)" "priv_array s = map Some cs"
    and "0 \<le> x" "x < w" "0 \<le> y" "y \<le> h"
  shows "svgExact_inner api s x y result
           = Inr (result @ concat (map (\<lambda>y. rect api x y (toRgba api (toArray (cs ! nat (y * w + x)))))
                                    [y..h - 1]))"
  using assms(6,7)
proof (induction "nat (h - y)" arbitrary: y result)
  case 0
  with assms(2) have "\<not> y < snd (get_dim s)" "[y..h - 1] = []"
    by (simp_all add: get_dim_def)
  then show ?case
    by (simp add: svgExact_inner.simps [of api s x y])
next
  case (Suc n)
  then have lt: "y < h" by simp
  from cell_Some [OF assms(1,2,4,5) Suc.prems(1) lt] assms(3)
  have c: "nat (y * w + x) < length (priv_array s)"
    "priv_array s ! nat (y * w + x) = Some (cs ! nat (y * w + x))"
    by simp_all
  from pixelAt_in_bounds [OF assms(2,4,5) Suc.prems(1) lt c]
  have px: "pixelAt s x y = Inr (copy (cs ! nat (y * w + x)))" .
  from lt assms(2) have step: "svgExact_inner api s x y result
      = svgExact_inner api s x (y + 1)
          (result @ rect api x y (toRgba api (toArray (cs ! nat (y * w + x)))))"
    by (simp add: svgExact_inner.simps [of api s x y] get_dim_def px toArray_copy)
  from Suc.hyps(2) lt have n: "n = nat (h - (y + 1))" by simp
  from Suc.prems(1) lt have b: "0 \<le> y + 1" "y + 1 \<le> h" by simp_all
  from lt have up: "[y..h - 1] = y # [y + 1..h - 1]"
    by (simp add: upto_rec1)
  show ?case
    unfolding step Suc.hyps(1) [OF n b] up by simp
qed

lemma svgExact_outer_run:
  assumes "Sprite_inv s" "priv_dim s = (w, h)" "priv_array s = map Some cs"
    and "0 \<le> x" "x \<le> w"
  shows "svgExact_outer api s x result
           = Inr (result @ concat (map (\<lambda>x. concat (map (\<lambda>y. rect api x y (toRgba api (toArray (cs ! nat (y * w + x)))))
                                    [0..h - 1])) [x..w - 1]))"
  using assms(4,5)
proof (induction "nat (w - x)" arbitrary: x result)
  case 0
  with assms(2) have "\<not> x < fst (priv_dim s)" "[x..w - 1] = []"
    by simp_all
  then show ?case
    by (simp add: svgExact_outer.simps [of api s x])
next
  case (Suc n)
  then have lt: "x < w" by simp
  from assms(1,2) have h: "0 \<le> h" by (simp add: Sprite_inv_def)
  note inner = svgExact_inner_run [OF assms(1-3) Suc.prems(1) lt order_refl h]
  from lt assms(2) have step: "svgExact_outer api s x result
      = svgExact_outer api s (x + 1)
          (result @ concat (map (\<lambda>y. rect api x y (toRgba api (toArray (cs ! nat (y * w + x)))))
                                    [0..h - 1]))"
    by (simp add: svgExact_outer.simps [of api s x] inner)
  from Suc.hyps(2) lt have n: "n = nat (w - (x + 1))" by simp
  from Suc.prems(1) lt have b: "0 \<le> x + 1" "x + 1 \<le> w" by simp_all
  from lt have up: "[x..w - 1] = x # [x + 1..w - 1]"
    by (simp add: upto_rec1)
  show ?case
    unfolding step Suc.hyps(1) [OF n b] up by simp
qed

lemma concat_product:
  "concat (map (\<lambda>x. concat (map (f x) ys)) xs) = concat (map (\<lambda>(x, y). f x y) (List.product xs ys))"
  by (induction xs) (simp_all add: comp_def)

lemma svg_rects_nth:
  assumes "0 \<le> x" "x < w" "0 \<le> y" "y < h"
  shows "svg_rects api w h cs ! nat (x * h + y)
          = rect api x y (toRgba api (toArray (cs ! nat (y * w + x))))"
proof -
  from assms have k: "nat (x * h + y) = nat x * nat h + nat y"
    by (simp add: nat_add_distrib nat_mult_distrib)
  from assms have yh: "nat y < nat h" and xw: "nat x < nat w"
    by simp_all
  from yh have dm: "(nat x * nat h + nat y) div nat h = nat x"
    "(nat x * nat h + nat y) mod nat h = nat y"
    by simp_all
  from xw have "nat x * nat h + nat h \<le> nat w * nat h"
    by (metis Suc_leI mult_Suc mult_le_mono1 add.commute)
  with yh have "nat x * nat h + nat y < nat w * nat h"
    by linarith
  moreover from assms have "length [0..w - 1] = nat w" "length [0..h - 1] = nat h"
    by simp_all
  ultimately have lt: "nat x * nat h + nat y < length [0..w - 1] * length [0..h - 1]"
    by simp
  from assms have nx: "[0..w - 1] ! nat x = x" and ny: "[0..h - 1] ! nat y = y"
    by (simp_all add: nth_upto)
  from lt have l2: "nat x * nat h + nat y < length (List.product [0..w - 1] [0..h - 1])"
    by simp
  from assms have lh: "length [0..h - 1] = nat h" by simp
  show ?thesis
    unfolding svg_rects_def k
    by (simp only: nth_map [OF l2] List.product_nth [OF lt] lh dm nx ny prod.case)
qed

text \<open>
  Claim C7. On every Sprite of dimension \<open>(w, h)\<close>, for every requested width and height,
  \<^verbatim>\<open>svgExact\<close> returns the opening tag, then exactly \<open>w * h\<close> \<^verbatim>\<open><rect>\<close> elements, then the
  closing tag. The opening tag ends with the \<^verbatim>\<open>viewBox\<close> attribute \<open>0, 0, w, h\<close>. The
  elements come in the order of an outer loop over \<open>x\<close> and an inner loop over \<open>y\<close>: the
  element at position \<open>x * h + y\<close> is the one of the cell \<open>(x, y)\<close>.
\<close>

theorem svgExact_markup:
  assumes "Sprite_inv s" "priv_dim s = (w, h)"
  shows "\<exists>cs. priv_array s = map Some cs \<and>
     svgExact api s width height unit parameters
       = Inr (svg_open api s width height unit parameters
              @ concat (svg_rects api w h cs) @ ''</svg>'') \<and>
     length (svg_rects api w h cs) = nat (w * h) \<and>
     (\<forall>x y. 0 \<le> x \<and> x < w \<and> 0 \<le> y \<and> y < h \<longrightarrow>
        svg_rects api w h cs ! nat (x * h + y)
          = rect api x y (toRgba api (toArray (cs ! nat (y * w + x))))) \<and>
     svg_open api s width height unit parameters
       = ''<svg '' @ parameters @ '' width=\"'' @ numberToString api width @ unit
         @ ''\" height=\"'' @ numberToString api height @ unit
         @ ''\" viewBox=\"0, 0, '' @ numberToString api (Num (of_int w)) @ '', ''
         @ numberToString api (Num (of_int h)) @ ''\">''"
proof -
  from assms(1) have "None \<notin> set (priv_array s)"
    by (simp add: Sprite_inv_def)
  from no_holes_map_Some [OF this] obtain cs where cs: "priv_array s = map Some cs" ..
  from assms have pos: "0 < w" "0 < h"
    by (simp_all add: Sprite_inv_def)
  then have w0: "(0::int) \<le> w" by simp
  from svgExact_outer_run [OF assms cs order_refl w0]
  have run: "svgExact api s width height unit parameters
       = Inr (svg_open api s width height unit parameters
              @ concat (svg_rects api w h cs) @ ''</svg>'')"
    by (simp add: svgExact_def svg_rects_def concat_product)
  have len: "length (svg_rects api w h cs) = nat (w * h)"
    using pos by (simp add: svg_rects_def nat_mult_distrib)
  have nth: "svg_rects api w h cs ! nat (x * h + y)
          = rect api x y (toRgba api (toArray (cs ! nat (y * w + x))))"
    if b: "0 \<le> x" "x < w" "0 \<le> y" "y < h" for x y
    using svg_rects_nth [OF b] .
  have opn: "svg_open api s width height unit parameters
       = ''<svg '' @ parameters @ '' width=\"'' @ numberToString api width @ unit
         @ ''\" height=\"'' @ numberToString api height @ unit
         @ ''\" viewBox=\"0, 0, '' @ numberToString api (Num (of_int w)) @ '', ''
         @ numberToString api (Num (of_int h)) @ ''\">''"
    using assms(2) by (simp add: svg_open_def get_dim_def)
  from cs run len nth opn show ?thesis
    by blast
qed

theorem svgExact_markup_witness:
  \<open>Sprite_inv sprite_2x2 \<and>
   svgExact sample_api sprite_2x2 (Num 20) (Num 20) ''px'' '''' = Inr
    (''<svg  width="20px" height="20px" viewBox="0, 0, 2, 2">''
     @ ''<rect width="1" height="1" x="0" y="0" style="fill:rgba(255,0,0,1);" />''
     @ ''<rect width="1" height="1" x="0" y="1" style="fill:rgba(0,0,255,1);" />''
     @ ''<rect width="1" height="1" x="1" y="0" style="fill:rgba(0,255,0,1);" />''
     @ ''<rect width="1" height="1" x="1" y="1" style="fill:rgba(255,255,255,1);" />''
     @ ''</svg>'')\<close>
proof -
  have d: "priv_dim sprite_2x2 = (2, 2)"
    by (simp add: sprite_2x2_def)
  have e: \<open>svgExact sample_api sprite_2x2 (Num 20) (Num 20) ''px'' '''' = Inr
    (''<svg  width="20px" height="20px" viewBox="0, 0, 2, 2">''
     @ ''<rect width="1" height="1" x="0" y="0" style="fill:rgba(255,0,0,1);" />''
     @ ''<rect width="1" height="1" x="0" y="1" style="fill:rgba(0,0,255,1);" />''
     @ ''<rect width="1" height="1" x="1" y="0" style="fill:rgba(0,255,0,1);" />''
     @ ''<rect width="1" height="1" x="1" y="1" style="fill:rgba(255,255,255,1);" />''
     @ ''</svg>'')\<close>
    by code_simp
  from svgExact_markup [OF Sprite_inv_2x2 d, of sample_api "Num 20" "Num 20" "''px''" "''''"] e
  show ?thesis
    by (simp add: Sprite_inv_2x2)
qed

subsection \<open>Rounding of the requested width\<close>

lemma bits_bounds:
  assumes "0 < n"
  shows "1 \<le> bits n \<and> 2 ^ nat (bits n - 1) \<le> n \<and> n < 2 ^ nat (bits n)"
  using assms
proof (induction n rule: bits.induct)
  case (1 n)
  show ?case
  proof (cases "n = 1")
    case True
    then have "bits n = 1"
      by (simp add: bits.simps [of 1] bits.simps [of 0])
    with True show ?thesis by simp
  next
    case False
    with "1.prems" have h: "0 < n div 2" by simp
    from "1.prems" have "\<not> n \<le> 0" by simp
    from "1.IH" [OF this h]
    have ih: "1 \<le> bits (n div 2)" "2 ^ nat (bits (n div 2) - 1) \<le> n div 2"
      "n div 2 < 2 ^ nat (bits (n div 2))"
      by simp_all
    from "1.prems" have b: "bits n = 1 + bits (n div 2)"
      by (simp add: bits.simps [of n])
    from ih(1) have e: "nat (bits n) = Suc (nat (bits n - 1))" "nat (bits n - 1) = nat (bits (n div 2))"
      "nat (bits (n div 2)) = Suc (nat (bits (n div 2) - 1))"
      unfolding b by simp_all
    have "(2::int) ^ nat (bits n - 1) = 2 * 2 ^ nat (bits (n div 2) - 1)"
      unfolding e(2) e(3) by simp
    also from ih(2) have "\<dots> \<le> 2 * (n div 2)" by simp
    also have "\<dots> \<le> n" by simp
    finally have lo: "2 ^ nat (bits n - 1) \<le> n" .
    from ih(3) have "n div 2 + 1 \<le> 2 ^ nat (bits (n div 2))" by simp
    then have "2 * (n div 2) + 2 \<le> 2 * 2 ^ nat (bits (n div 2))" by simp
    moreover have "n < 2 * (n div 2) + 2" by presburger
    ultimately have "n < 2 * 2 ^ nat (bits (n div 2))" by linarith
    then have hi: "n < 2 ^ nat (bits n)"
      unfolding e(1) e(2) by simp
    from ih(1) b lo hi show ?thesis by simp
  qed
qed

lemma bits_eq:
  assumes "2 ^ k \<le> n" "n < 2 ^ Suc k"
  shows "bits n = int k + 1"
proof -
  have "(0::int) < 2 ^ k" by simp
  with assms(1) have pos: "0 < n" by linarith
  note b = bits_bounds [OF pos]
  let ?b = "nat (bits n - 1)"
  from b have bb: "nat (bits n) = Suc ?b" by arith
  from b assms(2) have "(2::int) ^ ?b < 2 ^ Suc k" by linarith
  then have 1: "?b < Suc k" by (simp only: power_strict_increasing_iff one_less_numeral_iff semiring_norm)
  from b assms(1) have "(2::int) ^ k < 2 ^ Suc ?b" unfolding bb [symmetric] by linarith
  then have 2: "k < Suc ?b" by (simp only: power_strict_increasing_iff one_less_numeral_iff semiring_norm)
  from 1 2 have "?b = k" by simp
  with b show ?thesis by arith
qed

lemma ilog2_ge1:
  assumes "2 ^ k \<le> q" "q < 2 ^ Suc k"
  shows "ilog2 q = int k"
proof -
  have "(1::rat) \<le> 2 ^ k" by simp
  with assms(1) have q1: "1 \<le> q" by linarith
  from assms(1) have "of_int (2 ^ k) \<le> q" by simp
  then have lo: "2 ^ k \<le> \<lfloor>q\<rfloor>" by (simp only: le_floor_iff)
  have "of_int \<lfloor>q\<rfloor> \<le> q" "(of_int (2 ^ Suc k) :: rat) = 2 ^ Suc k" by simp_all
  with assms(2) have "of_int \<lfloor>q\<rfloor> < (of_int (2 ^ Suc k) :: rat)" by linarith
  then have hi: "\<lfloor>q\<rfloor> < 2 ^ Suc k" by (simp only: of_int_less_iff)
  from bits_eq [OF lo hi] q1 show ?thesis
    by (simp add: ilog2_def)
qed

lemma round_half_even_of_int: "round_half_even (of_int m) = m"
  by (simp add: round_half_even_def)

lemma round_half_even_le: "of_int (round_half_even x) \<le> x + 1"
proof -
  have "round_half_even x \<le> \<lfloor>x\<rfloor> + 1"
    by (simp add: round_half_even_def Let_def)
  then have "(of_int (round_half_even x) :: rat) \<le> of_int (\<lfloor>x\<rfloor> + 1)"
    by (simp only: of_int_le_iff)
  moreover have "of_int \<lfloor>x\<rfloor> \<le> x" "(of_int (\<lfloor>x\<rfloor> + 1) :: rat) = of_int \<lfloor>x\<rfloor> + 1"
    by simp_all
  ultimately show ?thesis by linarith
qed

lemma pow2_pos: "0 < pow2 e"
  by (simp add: pow2_def)

lemma binary64_ge1:
  assumes "2 ^ k \<le> q" "q < 2 ^ Suc k" "k \<le> 1022"
  shows "binary64 q
           = Num (of_int (round_half_even (q / pow2 (int k - 52))) * pow2 (int k - 52))"
proof -
  let ?u = "pow2 (int k - 52)"
  let ?r = "of_int (round_half_even (q / ?u)) * ?u"
  have "(0::rat) < 2 ^ k" by simp
  with assms(1) have pos: "0 < q" by linarith
  have e: "max (ilog2 \<bar>q\<bar>) (- 1022) = int k"
    using ilog2_ge1 [OF assms(1,2)] pos by simp
  have u_le: "?u \<le> 2 ^ Suc k"
  proof (cases "52 \<le> k")
    case True
    then have "?u = 2 ^ (k - 52)"
      by (simp add: pow2_def nat_diff_distrib)
    moreover have "(2::rat) ^ (k - 52) \<le> 2 ^ Suc k"
      by (rule power_increasing) simp_all
    ultimately show ?thesis by simp
  next
    case False
    then have "?u = 1 / 2 ^ nat (52 - int k)"
      by (simp add: pow2_def)
    moreover have "1 / 2 ^ nat (52 - int k) \<le> (1::rat)" by simp
    moreover have "(1::rat) \<le> 2 ^ Suc k" by (rule one_le_power) simp
    ultimately show ?thesis by linarith
  qed
  have "?r \<le> (q / ?u + 1) * ?u"
    using round_half_even_le [of "q / ?u"] pow2_pos [of "int k - 52"]
    by (simp only: mult_le_cancel_right_pos)
  also have "\<dots> = q + ?u"
    using pow2_pos [of "int k - 52"] by (simp add: field_simps)
  also from assms(2) u_le have "\<dots> < 2 ^ Suc k + 2 ^ Suc k" by linarith
  also have "\<dots> = 2 ^ Suc (Suc k)" by simp
  also from assms(3) have "\<dots> \<le> (2::rat) ^ 1024"
    by (intro power_increasing) simp_all
  finally have "\<not> 2 ^ 1024 \<le> ?r" by simp
  with pos e show ?thesis
    by (simp add: binary64_def Let_def)
qed

lemma binary64_of_int:
  assumes "0 < k" "k \<le> 2 ^ 53"
  shows "binary64 (of_int k) = Num (of_int k)"
proof -
  define e where "e = nat (bits k - 1)"
  from bits_bounds [OF assms(1)] have "nat (bits k) = Suc e"
    unfolding e_def by arith
  with bits_bounds [OF assms(1)] have b: "2 ^ e \<le> k" "k < 2 ^ Suc e"
    unfolding e_def by simp_all
  from b(1) assms(2) have "(2::int) ^ e \<le> 2 ^ 53" by linarith
  then have e53: "e \<le> 53"
    by (simp only: power_increasing_iff one_less_numeral_iff semiring_norm)
  from b(1) have "(of_int (2 ^ e) :: rat) \<le> of_int k"
    by (simp only: of_int_le_iff)
  then have lo: "(2::rat) ^ e \<le> of_int k" by simp
  from b(2) have "(of_int k :: rat) < of_int (2 ^ Suc e)"
    by (simp only: of_int_less_iff)
  then have hi: "(of_int k :: rat) < 2 ^ Suc e" by simp
  from e53 have "e \<le> 1022" by simp
  note ev = binary64_ge1 [OF lo hi this]
  show ?thesis
  proof (cases "e \<le> 52")
    case True
    then have u: "pow2 (int e - 52) = 1 / 2 ^ (52 - e)"
      by (cases "e = 52") (simp_all add: pow2_def nat_diff_distrib)
    have q: "of_int k / pow2 (int e - 52) = (of_int (k * 2 ^ (52 - e)) :: rat)"
      unfolding u by simp
    have "round_half_even (of_int k / pow2 (int e - 52)) = k * 2 ^ (52 - e)"
      unfolding q by (rule round_half_even_of_int)
    then show ?thesis
      unfolding ev by (simp add: u)
  next
    case False
    with e53 have e: "e = 53" by simp
    with b(1) assms(2) have k: "k = 2 ^ 53" by simp
    have "round_half_even ((of_int k :: rat) / 2) = 2 ^ 52"
      using round_half_even_of_int [of "2 ^ 52"] unfolding k by simp
    then show ?thesis
      unfolding ev e by (simp add: pow2_def k)
  qed
qed

lemma floor_rat_numeral:
  "\<lfloor>(numeral a :: rat) / numeral b\<rfloor> = numeral a div numeral b"
  using floor_divide_of_int_eq [of "numeral a" "numeral b", where ?'a = rat] by simp

text \<open>The quotient \<open>7 / 3\<close> and its product with 27, in binary64.\<close>

lemma binary64_7_3: "binary64 (7 / 3) = Num (5254199565265579 / 2251799813685248)"
  using binary64_ge1 [of 1 "7 / 3"]
  by (simp add: pow2_def round_half_even_def Let_def floor_rat_numeral)

lemma binary64_quotient_times_27:
  "binary64 (5254199565265579 / 2251799813685248 * 27)
     = Num (8866461766385665 / 140737488355328)"
  using binary64_ge1 [of 5 "5254199565265579 / 2251799813685248 * 27"]
  by (simp add: pow2_def round_half_even_def Let_def floor_rat_numeral)

lemma least_multiple_ge_iff:
  assumes "0 < d"
  shows "least_multiple_ge d n m \<longleftrightarrow>
           d dvd m \<and> n \<le> m \<and> (\<forall>k. d dvd k \<and> n \<le> k \<longrightarrow> m \<le> k)"
proof
  assume l: "least_multiple_ge d n m"
  have "m \<le> k" if k: "d dvd k" "n \<le> k" for k
  proof (rule ccontr)
    assume "\<not> m \<le> k"
    then have "0 < m - k" by simp
    moreover from l k have "d dvd m - k" by (simp add: least_multiple_ge_def)
    ultimately have "d \<le> m - k" by (rule zdvd_imp_le [rotated])
    with l k show False by (simp add: least_multiple_ge_def)
  qed
  with l show "d dvd m \<and> n \<le> m \<and> (\<forall>k. d dvd k \<and> n \<le> k \<longrightarrow> m \<le> k)"
    by (simp add: least_multiple_ge_def)
next
  assume r: "d dvd m \<and> n \<le> m \<and> (\<forall>k. d dvd k \<and> n \<le> k \<longrightarrow> m \<le> k)"
  then have dv: "d dvd m - d" by simp
  have "\<not> n \<le> m - d"
  proof
    assume "n \<le> m - d"
    with r dv have "m \<le> m - d" by blast
    with assms show False by simp
  qed
  with r show "least_multiple_ge d n m"
    by (simp add: least_multiple_ge_def)
qed

lemma round_up_least:
  fixes n d :: int
  assumes "0 < d" "n mod d \<noteq> 0"
  shows "least_multiple_ge d n (n + d - n mod d)"
proof -
  have "n + d - n mod d = d * (n div d + 1)"
    by (simp add: algebra_simps minus_mod_eq_mult_div [symmetric])
  then have "d dvd n + d - n mod d"
    by (simp only: dvd_triv_left)
  moreover from assms(1) have "0 \<le> n mod d" "n mod d < d"
    by simp_all
  moreover from this assms(2) have "0 < n mod d"
    by linarith
  ultimately show ?thesis
    by (simp add: least_multiple_ge_def)
qed

lemma js_rem_of_int:
  assumes "0 \<le> a" "0 < b"
  shows "js_rem (Num (of_int a)) (Num (of_int b)) = Num (of_int (a mod b))"
proof -
  from assms have "(0::rat) \<le> of_int a / of_int b" by simp
  then have "trunc (of_int a / of_int b) = a div b"
    by (simp add: trunc_def floor_divide_of_int_eq)
  moreover have "a - b * (a div b) = a mod b"
    by (rule minus_mult_div_eq_mod)
  then have "(of_int a :: rat) - of_int b * of_int (a div b) = of_int (a mod b)"
    by (metis of_int_diff of_int_mult)
  ultimately show ?thesis
    using assms(2) by simp
qed

lemma svgWidth_size_of_int:
  assumes "0 < dx" "priv_dim s = (dx, dy)" "0 \<le> width" "width + dx \<le> 2 ^ 53"
  shows "svgWidth_size s (Num (of_int width))
           = (Num (of_int (width + dx - width mod dx)),
              js_mul (binary64 (of_int dy / of_int dx))
                (Num (of_int (width + dx - width mod dx))))"
proof -
  from assms(1) have r: "0 \<le> width mod dx" "width mod dx < dx"
    by simp_all
  from assms(1,3) have "0 < width + dx" by simp
  from binary64_of_int [OF this assms(4)]
  have add: "js_add (Num (of_int width)) (Num (of_int dx)) = Num (of_int (width + dx))"
    by simp
  from r assms(3,4) have "0 < width + dx - width mod dx" "width + dx - width mod dx \<le> 2 ^ 53"
    by simp_all
  from binary64_of_int [OF this]
  have sub: "js_sub (Num (of_int (width + dx))) (Num (of_int (width mod dx)))
               = Num (of_int (width + dx - width mod dx))"
    by (simp add: js_sub_def)
  from assms(1) have div: "js_div (Num (of_int dy)) (Num (of_int dx))
               = binary64 (of_int dy / of_int dx)"
    by simp
  show ?thesis
    unfolding svgWidth_size_def assms(2) fst_conv snd_conv
      js_rem_of_int [OF assms(3,1)] add sub div Let_def ..
qed

text \<open>
  Claim C5, as the class has it. For every integer requested width with \<open>0 \<le> width\<close> and
  \<open>width + dimX \<le> 2\<^sup>5\<^sup>3\<close>, so that binary64 holds each intermediate integer exactly,
  \<^verbatim>\<open>svgWidth(width)\<close> computes the width \<open>width + dimX - (width mod dimX)\<close>, and
  \<^verbatim>\<open>width % dimX\<close> is \<open>width mod dimX\<close>. When the remainder is not 0 the computed width is
  the least multiple of the grid width that is at least \<open>width\<close>; when \<open>width\<close> is a
  multiple of the grid width it is \<open>width + dimX\<close>. The derived height is the product,
  rounded to binary64, of the quotient \<open>dimY / dimX\<close>, rounded to binary64, and the computed
  width. The two are what \<^verbatim>\<open>svgWidth\<close> hands to \<^verbatim>\<open>svgExact\<close>.
\<close>

theorem svgWidth_rounding:
  assumes "Sprite_inv s" "priv_dim s = (dx, dy)" "0 \<le> width" "width + dx \<le> 2 ^ 53"
  shows "svgWidth_size s (Num (of_int width))
           = (Num (of_int (width + dx - width mod dx)),
              js_mul (binary64 (of_int dy / of_int dx))
                (Num (of_int (width + dx - width mod dx)))) \<and>
         svgWidth api s (Num (of_int width)) unit parameters
           = svgExact api s (Num (of_int (width + dx - width mod dx)))
               (js_mul (binary64 (of_int dy / of_int dx))
                 (Num (of_int (width + dx - width mod dx)))) unit parameters \<and>
         js_rem (Num (of_int width)) (Num (of_int dx)) = Num (of_int (width mod dx)) \<and>
         (width mod dx \<noteq> 0 \<longrightarrow> least_multiple_ge dx width (width + dx - width mod dx)) \<and>
         (width mod dx = 0 \<longrightarrow>
            fst (svgWidth_size s (Num (of_int width))) = Num (of_int (width + dx)))"
proof -
  from assms(1,2) have dx: "0 < dx" by (simp add: Sprite_inv_def)
  note size = svgWidth_size_of_int [OF dx assms(2-4)]
  show ?thesis
  proof (intro conjI impI)
    show "svgWidth_size s (Num (of_int width))
           = (Num (of_int (width + dx - width mod dx)),
              js_mul (binary64 (of_int dy / of_int dx))
                (Num (of_int (width + dx - width mod dx))))"
      by (rule size)
    show "svgWidth api s (Num (of_int width)) unit parameters
           = svgExact api s (Num (of_int (width + dx - width mod dx)))
               (js_mul (binary64 (of_int dy / of_int dx))
                 (Num (of_int (width + dx - width mod dx)))) unit parameters"
      by (simp add: svgWidth_def size)
    show "js_rem (Num (of_int width)) (Num (of_int dx)) = Num (of_int (width mod dx))"
      by (rule js_rem_of_int [OF assms(3) dx])
    show "least_multiple_ge dx width (width + dx - width mod dx)" if "width mod dx \<noteq> 0"
      using dx that by (rule round_up_least)
    show "fst (svgWidth_size s (Num (of_int width))) = Num (of_int (width + dx))"
      if "width mod dx = 0"
      using that by (simp add: size)
  qed
qed

theorem svgWidth_rounding_witness:
  "svgWidth_size sprite_3x7 (Num 25) = (Num 27, Num (8866461766385665 / 140737488355328)) \<and>
   least_multiple_ge 3 25 27 \<and>
   fst (svgWidth_size sprite_3x7 (Num 24)) = Num 27"
proof -
  have d: "priv_dim sprite_3x7 = (3, 7)"
    by (simp add: sprite_3x7_def)
  from binary64_quotient_times_27
  have h: "binary64 (141863388262170633 / 2251799813685248)
             = Num (8866461766385665 / 140737488355328)"
    by simp
  from svgWidth_rounding [OF Sprite_inv_3x7 d, of 25 sample_api "''px''" "''''"]
    svgWidth_rounding [OF Sprite_inv_3x7 d, of 24 sample_api "''px''" "''''"]
  show ?thesis
    by (simp add: binary64_7_3 h)
qed

text \<open>
  Claim C5, as it is stated for every requested width and with the height as an exact
  product, fails in four ways.
  \<^item> At the width \<open>- 1\<close> on a grid of width 3 the remainder is \<open>- 1\<close> and the computed width
    is 3, while the least multiple of 3 that is at least \<open>- 1\<close> is 0.
  \<^item> At the width 2.1 on a grid of width 2 the computed width is 3.9999999999999996, less
    than 4 and no multiple of 2.
  \<^item> At the width \<open>2\<^sup>5\<^sup>3\<close> on a grid of width 3 the sum \<open>2\<^sup>5\<^sup>3 + 3\<close> rounds to \<open>2\<^sup>5\<^sup>3 + 4\<close>, and the
    computed width \<open>2\<^sup>5\<^sup>3 + 2\<close> is no multiple of 3.
  \<^item> At the width 25 on a grid of dimension \<open>(3, 7)\<close> the computed width is 27 and the
    height is 63.00000000000001, not \<open>7 / 3 * 27 = 63\<close>.
\<close>

theorem svgWidth_counterexample:
  "js_rem (Num (- 1)) (Num 3) = Num (- 1) \<and>
   fst (svgWidth_size sprite_3x7 (Num (- 1))) = Num 3 \<and>
   \<not> least_multiple_ge 3 (- 1) 3 \<and> least_multiple_ge 3 (- 1) 0 \<and>
   js_rem (Num (4728779608739021 / 2251799813685248)) (Num 2)
     = Num (225179981368525 / 2251799813685248) \<and>
   fst (svgWidth_size sprite_2x2 (Num (4728779608739021 / 2251799813685248)))
     = Num (9007199254740991 / 2251799813685248) \<and>
   (9007199254740991 / 2251799813685248 :: rat) < 4 \<and>
   js_rem (Num 9007199254740992) (Num 3) = Num 2 \<and>
   fst (svgWidth_size sprite_3x7 (Num 9007199254740992)) = Num 9007199254740994 \<and>
   \<not> (3::int) dvd 9007199254740994 \<and>
   svgWidth_size sprite_3x7 (Num 25) = (Num 27, Num (8866461766385665 / 140737488355328)) \<and>
   (8866461766385665 / 140737488355328 :: rat) \<noteq> 7 / 3 * 27"
proof -
  have r1: "js_rem (Num (- 1)) (Num 3) = Num (- 1)"
    by (simp add: trunc_def ceiling_eq_iff)
  have a1: "binary64 (- 1 + 3) = Num 2"
    using binary64_of_int [of 2] by simp
  have s1: "binary64 (2 + - (- 1)) = Num 3"
    using binary64_of_int [of 3] by simp
  have "fst (svgWidth_size sprite_3x7 (Num (- 1)))
     = js_sub (js_add (Num (- 1)) (Num 3)) (js_rem (Num (- 1)) (Num 3))"
    by (simp add: svgWidth_size_def sprite_3x7_def Let_def del: js_add.simps js_rem.simps)
  also have "\<dots> = Num 3"
    unfolding r1 js_add.simps a1 js_sub_def js_neg.simps s1 ..
  finally have w1: "fst (svgWidth_size sprite_3x7 (Num (- 1))) = Num 3" .
  have l1: "\<not> least_multiple_ge 3 (- 1) 3" "least_multiple_ge 3 (- 1) 0"
    by (simp_all add: least_multiple_ge_def)
  have r2: "js_rem (Num (4728779608739021 / 2251799813685248)) (Num 2)
     = Num (225179981368525 / 2251799813685248)"
    by (simp add: trunc_def floor_rat_numeral)
  have a2: "binary64 (4728779608739021 / 2251799813685248 + 2)
              = Num (2308094809027379 / 562949953421312)"
    using binary64_ge1 [of 2 "4728779608739021 / 2251799813685248 + 2"]
    by (simp add: pow2_def round_half_even_def Let_def floor_rat_numeral)
  have s2: "binary64 (2308094809027379 / 562949953421312 + - (225179981368525 / 2251799813685248))
              = Num (9007199254740991 / 2251799813685248)"
    using binary64_ge1 [of 1 "2308094809027379 / 562949953421312 + - (225179981368525 / 2251799813685248)"]
    by (simp add: pow2_def round_half_even_def Let_def floor_rat_numeral)
  have "fst (svgWidth_size sprite_2x2 (Num (4728779608739021 / 2251799813685248)))
     = js_sub (js_add (Num (4728779608739021 / 2251799813685248)) (Num 2))
         (js_rem (Num (4728779608739021 / 2251799813685248)) (Num 2))"
    by (simp add: svgWidth_size_def sprite_2x2_def Let_def del: js_add.simps js_rem.simps)
  also have "\<dots> = Num (9007199254740991 / 2251799813685248)"
    unfolding r2 js_add.simps a2 js_sub_def js_neg.simps s2 ..
  finally have w2: "fst (svgWidth_size sprite_2x2 (Num (4728779608739021 / 2251799813685248)))
     = Num (9007199254740991 / 2251799813685248)" .
  have r3: "js_rem (Num 9007199254740992) (Num 3) = Num 2"
    by (simp add: trunc_def floor_rat_numeral)
  have a3: "binary64 (9007199254740992 + 3) = Num 9007199254740996"
    using binary64_ge1 [of 53 "9007199254740992 + 3"]
    by (simp add: pow2_def round_half_even_def Let_def floor_rat_numeral)
  have s3: "binary64 (9007199254740996 + - 2) = Num 9007199254740994"
    using binary64_ge1 [of 53 "9007199254740996 + - 2"]
    by (simp add: pow2_def round_half_even_def Let_def floor_rat_numeral)
  have "fst (svgWidth_size sprite_3x7 (Num 9007199254740992))
     = js_sub (js_add (Num 9007199254740992) (Num 3)) (js_rem (Num 9007199254740992) (Num 3))"
    by (simp add: svgWidth_size_def sprite_3x7_def Let_def del: js_add.simps js_rem.simps)
  also have "\<dots> = Num 9007199254740994"
    unfolding r3 js_add.simps a3 js_sub_def js_neg.simps s3 ..
  finally have w3: "fst (svgWidth_size sprite_3x7 (Num 9007199254740992)) = Num 9007199254740994" .
  have d3: "\<not> (3::int) dvd 9007199254740994" by simp
  have d: "priv_dim sprite_3x7 = (3, 7)"
    by (simp add: sprite_3x7_def)
  from binary64_quotient_times_27
  have h: "binary64 (141863388262170633 / 2251799813685248)
             = Num (8866461766385665 / 140737488355328)"
    by simp
  from svgWidth_size_of_int [of 3 sprite_3x7 7 25, OF _ d]
  have w4: "svgWidth_size sprite_3x7 (Num 25)
              = (Num 27, Num (8866461766385665 / 140737488355328))"
    by (simp add: binary64_7_3 h)
  have d4: "(8866461766385665 / 140737488355328 :: rat) \<noteq> 7 / 3 * 27" by simp
  from r1 w1 l1 r2 w2 r3 w3 d3 w4 d4 show ?thesis
    by simp
qed

end
